theory Spec2Isabelle
  imports Main
begin

section \<open>The icon render driver of media-toc (assets/icons/render_image.py)\<close>

text \<open>
  The script under verification:
  \<^verbatim>\<open>
  import bpy, os

  xy = os.environ['XY']
  for scene in bpy.data.scenes:
      scene.render.resolution_x = int(xy)
      scene.render.resolution_y = int(xy)
      scene.render.filepath = 'assets/icons/hicolor/%sx%s/apps/%s.png'%(xy, xy, os.environ['APP_ID'])
      scene.frame_end = 1
      bpy.ops.render.render(write_still=True)
  \<close>
  The embedding follows it statement by statement. Every raise of the script is a value
  of \<open>error\<close>; since an exception leaves behind whatever was mutated before it, a run
  returns the host state it stopped in together with the exception (if any).
\<close>

subsection \<open>Exceptions\<close>

datatype error =
    KeyError string      \<comment> \<open>\<open>os.environ[k]\<close> on a missing key\<close>
  | ValueError string    \<comment> \<open>\<open>int(s)\<close> on a string that is no integer literal\<close>
  | TypeError string     \<comment> \<open>\<open>%\<close> with too few or too many arguments\<close>
  | RuntimeError         \<comment> \<open>the host's render operator failed\<close>

subsection \<open>Python's \<open>int(str)\<close>, base 10\<close>

text \<open>
  A \<open>char\<close> stands for the code point of the same number (U+0000 to U+00FF). In that range
  the white space \<open>int\<close> strips is U+0009..U+000D, U+0020, U+0085 and U+00A0, and the decimal
  digits are \<open>0\<close>..\<open>9\<close>. After the white space comes an optional sign, then digits, where
  single underscores may stand between two digits, then white space to the end; anything
  else raises \<open>ValueError\<close>. The cap on the number of digits that newer interpreters can be
  configured with (\<open>sys.set_int_max_str_digits\<close>) is not part of the model: the integers are
  unbounded, as with the cap switched off.
\<close>

definition is_space :: "char \<Rightarrow> bool" where
  "is_space c =
     (let n = (of_char c :: nat)
      in (9 \<le> n \<and> n \<le> 13) \<or> n = 32 \<or> n = 133 \<or> n = 160)"

definition is_digit :: "char \<Rightarrow> bool" where
  "is_digit c = (let n = (of_char c :: nat) in 48 \<le> n \<and> n \<le> 57)"

definition digit_value :: "char \<Rightarrow> int" where
  "digit_value c = int (of_char c) - 48"

text \<open>
  The digit scan: \<open>prev_us\<close> tells whether the previous character was an underscore,
  \<open>acc\<close> is the value read so far. The scan stops at the first character that is neither a
  digit nor an underscore and returns the rest; two underscores in a row and an underscore
  at the end of the digits are refused.
\<close>

fun scan_digits :: "bool \<Rightarrow> int \<Rightarrow> string \<Rightarrow> (int \<times> string) option" where
  "scan_digits prev_us acc [] = (if prev_us then None else Some (acc, []))"
| "scan_digits prev_us acc (c # cs) =
     (if is_digit c then scan_digits False (acc * 10 + digit_value c) cs
      else if c = CHR ''_'' then (if prev_us then None else scan_digits True acc cs)
      else if prev_us then None else Some (acc, c # cs))"

definition int_py :: "string \<Rightarrow> error + int" where
  "int_py s =
     (let t = dropWhile is_space s;
          (sign, u) = (case t of
                         [] \<Rightarrow> (1, t)
                       | c # cs \<Rightarrow> if c = CHR ''+'' then (1, cs)
                                  else if c = CHR ''-'' then (- 1, cs)
                                  else (1, t))
      in case u of
           [] \<Rightarrow> Inl (ValueError s)
         | d # ds \<Rightarrow>
             if \<not> is_digit d then Inl (ValueError s)
             else (case scan_digits False 0 u of
                     None \<Rightarrow> Inl (ValueError s)
                   | Some (v, rest) \<Rightarrow>
                       if dropWhile is_space rest = [] then Inr (sign * v)
                       else Inl (ValueError s)))"

subsection \<open>The \<open>%\<close> operator on a template and a tuple of strings\<close>

text \<open>
  The fragment of \<open>template % (a, b, ...)\<close> the script uses: ordinary characters are copied,
  \<open>%s\<close> is replaced by the next argument (the arguments are strings, whose \<open>str\<close> is the
  string itself) and \<open>%%\<close> is a percent sign. Too few arguments, arguments left over and an
  incomplete conversion raise. Every other conversion is outside the fragment; the model
  reports it as an unsupported format character.
\<close>

fun percent_format :: "string \<Rightarrow> string list \<Rightarrow> error + string" where
  "percent_format [] [] = Inr []"
| "percent_format [] (a # as) =
     Inl (TypeError ''not all arguments converted during string formatting'')"
| "percent_format [c] as =
     (if c = CHR ''%'' then Inl (ValueError ''incomplete format'')
      else map_sum id ((#) c) (percent_format [] as))"
| "percent_format (c # d # cs) as =
     (if c \<noteq> CHR ''%'' then map_sum id ((#) c) (percent_format (d # cs) as)
      else if d = CHR ''%'' then map_sum id ((#) c) (percent_format cs as)
      else if d = CHR ''s'' then
        (case as of
           [] \<Rightarrow> Inl (TypeError ''not enough arguments for format string'')
         | a # as' \<Rightarrow> map_sum id ((@) a) (percent_format cs as'))
      else Inl (ValueError ''unsupported format character''))"

definition path_template :: string where
  "path_template = ''assets/icons/hicolor/%sx%s/apps/%s.png''"

subsection \<open>The host: scenes, the scene collection, the render operator\<close>

text \<open>
  A scene is the host's object. The script reads and writes \<open>scene.render.resolution_x\<close>,
  \<open>scene.render.resolution_y\<close>, \<open>scene.render.filepath\<close> and \<open>scene.frame_end\<close>; whatever
  else the render settings and the scene hold is \<open>render_rest\<close> and \<open>scene_rest\<close>. The fields
  are plain mutable fields: an assignment stores the value assigned.
\<close>

record 'r render_settings =
  resolution_x :: int
  resolution_y :: int
  filepath :: string
  render_rest :: 'r

record ('r, 's) scene =
  render :: "'r render_settings"
  frame_end :: int
  scene_rest :: 's

text \<open>
  The host state: \<open>scenes\<close> is \<open>bpy.data.scenes\<close> in collection order; \<open>render_calls\<close> is
  the trace of the invocations of \<open>bpy.ops.render.render(write_still=True)\<close>, oldest first,
  each entry the scene collection as it stood when the operator was invoked.
\<close>

record ('r, 's) host =
  scenes :: "('r, 's) scene list"
  render_calls :: "('r, 's) scene list list"

text \<open>
  The render operator belongs to the host and is opaque to the script. It is a parameter
  of the model: from the trace of the earlier invocations and the scene collection it
  answers whether this invocation succeeds; a failure raises. It leaves the fields of the
  scenes as they are.
\<close>

type_synonym ('r, 's) render_op = "('r, 's) scene list list \<Rightarrow> ('r, 's) scene list \<Rightarrow> bool"

definition render_ok :: "('r, 's) render_op" where
  "render_ok calls snapshot = True"

definition render_fails :: "('r, 's) render_op" where
  "render_fails calls snapshot = False"

type_synonym environ = "string \<rightharpoonup> string"

subsection \<open>The loop body up to the render call\<close>

text \<open>
  Lines 5 to 8 on one scene, in the order the interpreter evaluates them: \<open>int(xy)\<close>, the
  store to \<open>resolution_x\<close>; \<open>int(xy)\<close> again, the store to \<open>resolution_y\<close>; the lookup of
  \<open>APP_ID\<close>, the formatting, the store to \<open>filepath\<close>; the store to \<open>frame_end\<close>. The
  result is the scene as the body left it and the exception that stopped it, if any.
\<close>

definition configure :: "environ \<Rightarrow> string \<Rightarrow> ('r, 's) scene \<Rightarrow> ('r, 's) scene \<times> error option" where
  "configure env xy s =
     (case int_py xy of
        Inl e \<Rightarrow> (s, Some e)
      | Inr n \<Rightarrow>
          let s1 = s\<lparr>render := (render s)\<lparr>resolution_x := n\<rparr>\<rparr> in
          (case int_py xy of
             Inl e \<Rightarrow> (s1, Some e)
           | Inr m \<Rightarrow>
               let s2 = s1\<lparr>render := (render s1)\<lparr>resolution_y := m\<rparr>\<rparr> in
               (case env ''APP_ID'' of
                  None \<Rightarrow> (s2, Some (KeyError ''APP_ID''))
                | Some app_id \<Rightarrow>
                    (case percent_format path_template [xy, xy, app_id] of
                       Inl e \<Rightarrow> (s2, Some e)
                     | Inr p \<Rightarrow>
                         let s3 = s2\<lparr>render := (render s2)\<lparr>filepath := p\<rparr>\<rparr>;
                             s4 = s3\<lparr>frame_end := 1\<rparr>
                         in (s4, None)))))"

subsection \<open>The loop and the script\<close>

text \<open>
  \<open>for scene in bpy.data.scenes\<close>: \<open>done\<close> are the scenes already visited (as mutated),
  \<open>todo\<close> the scenes still to visit, \<open>calls\<close> the render trace so far. The render call of
  line 9 is recorded in the trace whether it succeeds or not. The loop stops at the first
  exception.
\<close>

fun for_scenes ::
  "environ \<Rightarrow> string \<Rightarrow> ('r, 's) render_op \<Rightarrow> ('r, 's) scene list \<Rightarrow> ('r, 's) scene list \<Rightarrow>
   ('r, 's) scene list list \<Rightarrow> ('r, 's) host \<times> error option" where
  "for_scenes env xy rop done [] calls = (\<lparr>scenes = done, render_calls = calls\<rparr>, None)"
| "for_scenes env xy rop done (s # todo) calls =
     (case configure env xy s of
        (s', Some e) \<Rightarrow> (\<lparr>scenes = done @ s' # todo, render_calls = calls\<rparr>, Some e)
      | (s', None) \<Rightarrow>
          let snapshot = done @ s' # todo in
          if rop calls snapshot
          then for_scenes env xy rop (done @ [s']) todo (calls @ [snapshot])
          else (\<lparr>scenes = snapshot, render_calls = calls @ [snapshot]\<rparr>, Some RuntimeError))"

definition render_image ::
  "environ \<Rightarrow> ('r, 's) render_op \<Rightarrow> ('r, 's) host \<Rightarrow> ('r, 's) host \<times> error option" where
  "render_image env rop h =
     (case env ''XY'' of
        None \<Rightarrow> (h, Some (KeyError ''XY''))
      | Some xy \<Rightarrow> for_scenes env xy rop [] (scenes h) (render_calls h))"

subsection \<open>Vocabulary for the statements\<close>

text \<open>
  \<open>touch env xy s\<close> is the scene \<open>s\<close> as the loop body leaves it. \<open>visited c k ss\<close> is the
  collection \<open>ss\<close> once the first \<open>k\<close> scenes went through \<open>c\<close>. \<open>snapshots c ss\<close> lists, for
  each scene in collection order, the collection as it stands when that scene has gone
  through \<open>c\<close> and the later ones have not been reached. \<open>new_calls h h'\<close> are the render
  invocations that \<open>h'\<close> has beyond those of \<open>h\<close>.
\<close>

definition touch :: "environ \<Rightarrow> string \<Rightarrow> ('r, 's) scene \<Rightarrow> ('r, 's) scene" where
  "touch env xy s = fst (configure env xy s)"

definition visited :: "('a \<Rightarrow> 'a) \<Rightarrow> nat \<Rightarrow> 'a list \<Rightarrow> 'a list" where
  "visited c k ss = map c (take k ss) @ drop k ss"

definition snapshots :: "('a \<Rightarrow> 'a) \<Rightarrow> 'a list \<Rightarrow> 'a list list" where
  "snapshots c ss = map (\<lambda>k. visited c (Suc k) ss) [0..<length ss]"

definition new_calls :: "('r, 's) host \<Rightarrow> ('r, 's) host \<Rightarrow> ('r, 's) scene list list" where
  "new_calls h h' = drop (length (render_calls h)) (render_calls h')"

text \<open>A scene with the four fields set as a complete pass of the loop body sets them.\<close>

definition configured :: "int \<Rightarrow> string \<Rightarrow> ('r, 's) scene \<Rightarrow> ('r, 's) scene" where
  "configured n p s =
     s\<lparr>render := (render s)\<lparr>resolution_x := n, resolution_y := n, filepath := p\<rparr>,
       frame_end := 1\<rparr>"

text \<open>What a scene holds besides the four fields.\<close>

definition others :: "('r, 's) scene \<Rightarrow> 'r \<times> 's" where
  "others s = (render_rest (render s), scene_rest s)"

text \<open>
  The state a run of the loop over \<open>todo\<close> can end in: \<open>k\<close> render invocations were made,
  the body was entered for \<open>m\<close> scenes (\<open>m = k\<close>, or \<open>m = k + 1\<close> when the body of scene
  \<open>k\<close> raised before its render call).
\<close>

definition shape ::
  "environ \<Rightarrow> string \<Rightarrow> ('r, 's) scene list \<Rightarrow> ('r, 's) scene list \<Rightarrow> ('r, 's) scene list list \<Rightarrow>
   ('r, 's) host \<Rightarrow> error option \<Rightarrow> nat \<Rightarrow> nat \<Rightarrow> bool" where
  "shape env xy done todo calls h' r k m \<longleftrightarrow>
     k \<le> m \<and> m \<le> Suc k \<and> m \<le> length todo \<and>
     render_calls h' = calls @ map ((@) done) (take k (snapshots (touch env xy) todo)) \<and>
     scenes h' = done @ visited (touch env xy) m todo \<and>
     (\<forall>i<k. snd (configure env xy (todo ! i)) = None) \<and>
     (r = None \<longrightarrow> k = length todo) \<and>
     (k < m \<longrightarrow> r = snd (configure env xy (todo ! k)) \<and> r \<noteq> None)"

subsection \<open>Concrete environments and hosts\<close>

definition env_icon :: environ where
  "env_icon = map_of [(''XY'', ''48''), (''APP_ID'', ''org.example.App'')]"

definition env_abc :: environ where
  "env_abc = map_of [(''XY'', ''abc''), (''APP_ID'', ''org.example.App'')]"

definition env_zero :: environ where
  "env_zero = map_of [(''XY'', ''0''), (''APP_ID'', ''org.example.App'')]"

definition env_no_xy :: environ where
  "env_no_xy = map_of [(''APP_ID'', ''org.example.App'')]"

definition env_no_app :: environ where
  "env_no_app = map_of [(''XY'', ''48'')]"

definition env_junk :: environ where
  "env_junk = map_of [(''XY'', ''not a number'')]"

definition env_minus :: environ where
  "env_minus = map_of [(''XY'', ''-5''), (''APP_ID'', ''org.example.App'')]"

text \<open>Two scenes; the rest of the render settings is a percentage, the rest of a scene its name.\<close>

definition scene_a :: "(nat, string) scene" where
  "scene_a = \<lparr>render = \<lparr>resolution_x = 1920, resolution_y = 1080, filepath = ''/tmp/'',
                         render_rest = 50\<rparr>,
              frame_end = 250, scene_rest = ''Scene''\<rparr>"

definition scene_b :: "(nat, string) scene" where
  "scene_b = \<lparr>render = \<lparr>resolution_x = 640, resolution_y = 480, filepath = ''//out'',
                         render_rest = 100\<rparr>,
              frame_end = 24, scene_rest = ''Symbolic''\<rparr>"

definition no_scenes :: "(nat, string) host" where
  "no_scenes = \<lparr>scenes = [], render_calls = []\<rparr>"

definition one_scene :: "(nat, string) host" where
  "one_scene = \<lparr>scenes = [scene_a], render_calls = []\<rparr>"

definition two_scenes :: "(nat, string) host" where
  "two_scenes = \<lparr>scenes = [scene_a, scene_b], render_calls = []\<rparr>"

definition icon_path :: string where
  "icon_path = ''assets/icons/hicolor/48x48/apps/org.example.App.png''"

section \<open>Properties\<close>

subsection \<open>Evaluating the parser and the formatter\<close>

lemmas int_py_eval = int_py_def is_space_def is_digit_def digit_value_def

lemma int_py_48: "int_py ''48'' = Inr 48"
  by (simp add: int_py_eval)

lemma int_py_0: "int_py ''0'' = Inr 0"
  by (simp add: int_py_eval)

lemma int_py_abc: "int_py ''abc'' = Inl (ValueError ''abc'')"
  by (simp add: int_py_eval)

lemma path_format:
  "percent_format path_template [xy, xy, app_id] =
     Inr (''assets/icons/hicolor/'' @ xy @ ''x'' @ xy @ ''/apps/'' @ app_id @ ''.png'')"
  by (simp add: path_template_def)

subsection \<open>The loop body\<close>

lemma configure_complete:
  assumes "int_py xy = Inr n" and "env ''APP_ID'' = Some app_id"
  shows "configure env xy s =
    (configured n (''assets/icons/hicolor/'' @ xy @ ''x'' @ xy @ ''/apps/'' @ app_id @ ''.png'') s,
     None)"
  using assms by (simp add: configure_def path_format configured_def)

lemma configure_no_int:
  assumes "int_py xy = Inl e"
  shows "configure env xy s = (s, Some e)"
  using assms by (simp add: configure_def)

lemma configure_no_app_id:
  assumes "int_py xy = Inr n" and "env ''APP_ID'' = None"
  shows "configure env xy s =
    (s\<lparr>render := (render s)\<lparr>resolution_x := n, resolution_y := n\<rparr>\<rparr>, Some (KeyError ''APP_ID''))"
  using assms by (simp add: configure_def)

lemma configure_None:
  assumes "configure env xy s = (s', None)"
  shows "\<exists>n app_id. int_py xy = Inr n \<and> env ''APP_ID'' = Some app_id \<and>
     s' = configured n (''assets/icons/hicolor/'' @ xy @ ''x'' @ xy @ ''/apps/'' @ app_id @ ''.png'') s"
proof (cases "int_py xy")
  case (Inl e)
  with assms show ?thesis by (simp add: configure_no_int)
next
  case (Inr n)
  show ?thesis
  proof (cases "env ''APP_ID''")
    case None
    with Inr assms show ?thesis by (simp add: configure_no_app_id)
  next
    case (Some app_id)
    with Inr assms show ?thesis by (simp add: configure_complete)
  qed
qed

lemma others_touch: "others (touch env xy s) = others s"
proof (cases "int_py xy")
  case (Inl e)
  then show ?thesis by (simp add: touch_def configure_no_int)
next
  case (Inr n)
  then show ?thesis
    by (cases "env ''APP_ID''")
       (simp_all add: touch_def configure_no_app_id configure_complete others_def configured_def)
qed

subsection \<open>The loop\<close>

lemma visited_0: "visited c 0 ss = ss"
  by (simp add: visited_def)

lemma visited_Suc_Cons: "visited c (Suc k) (s # ss) = c s # visited c k ss"
  by (simp add: visited_def)

lemma visited_all: "length ss \<le> k \<Longrightarrow> visited c k ss = map c ss"
  by (simp add: visited_def)

lemma length_visited: "length (visited c k ss) = length ss"
  by (simp add: visited_def)

lemma nth_visited:
  "i < length ss \<Longrightarrow> visited c k ss ! i = (if i < k then c (ss ! i) else ss ! i)"
  by (auto simp: visited_def nth_append min_def)

lemma snapshots_Nil: "snapshots c [] = []"
  by (simp add: snapshots_def)

lemma snapshots_Cons:
  "snapshots c (s # ss) = (c s # ss) # map ((#) (c s)) (snapshots c ss)"
  by (simp add: snapshots_def map_upt_Suc visited_Suc_Cons visited_0 del: upt_Suc)

lemma length_snapshots: "length (snapshots c ss) = length ss"
  by (simp add: snapshots_def)

lemma nth_snapshots: "k < length ss \<Longrightarrow> snapshots c ss ! k = visited c (Suc k) ss"
  by (simp add: snapshots_def)


lemma for_scenes_Cons_raise:
  "configure env xy s = (s', Some e) \<Longrightarrow>
   for_scenes env xy rop done (s # todo) calls =
     (\<lparr>scenes = done @ s' # todo, render_calls = calls\<rparr>, Some e)"
  by simp

lemma for_scenes_Cons_fail:
  "configure env xy s = (s', None) \<Longrightarrow> \<not> rop calls (done @ s' # todo) \<Longrightarrow>
   for_scenes env xy rop done (s # todo) calls =
     (\<lparr>scenes = done @ s' # todo, render_calls = calls @ [done @ s' # todo]\<rparr>,
      Some RuntimeError)"
  by (simp add: Let_def)

lemma for_scenes_Cons_next:
  "configure env xy s = (s', None) \<Longrightarrow> rop calls (done @ s' # todo) \<Longrightarrow>
   for_scenes env xy rop done (s # todo) calls =
     for_scenes env xy rop (done @ [s']) todo (calls @ [done @ s' # todo])"
  by (simp add: Let_def)

lemma shape_Nil: "shape env xy done [] calls \<lparr>scenes = done, render_calls = calls\<rparr> None 0 0"
  by (simp add: shape_def visited_0 snapshots_Nil)

lemma shape_raise:
  "configure env xy s = (s', Some e) \<Longrightarrow>
   shape env xy done (s # todo) calls \<lparr>scenes = done @ s' # todo, render_calls = calls\<rparr> (Some e) 0 1"
  by (simp add: shape_def visited_Suc_Cons visited_0 touch_def)

lemma shape_fail:
  "configure env xy s = (s', None) \<Longrightarrow>
   shape env xy done (s # todo) calls
     \<lparr>scenes = done @ s' # todo, render_calls = calls @ [done @ s' # todo]\<rparr> (Some RuntimeError) 1 1"
  by (simp add: shape_def visited_Suc_Cons visited_0 touch_def snapshots_Cons)

lemma shape_next:
  assumes cfg: "configure env xy s = (s', None)"
    and sh: "shape env xy (done @ [s']) todo (calls @ [done @ s' # todo]) h' r k m"
  shows "shape env xy done (s # todo) calls h' r (Suc k) (Suc m)"
proof -
  have t: "touch env xy s = s'" using cfg by (simp add: touch_def)
  have a: "render_calls h' =
      calls @ map ((@) done) (take (Suc k) (snapshots (touch env xy) (s # todo)))"
    using sh by (simp add: shape_def snapshots_Cons t take_map)
  have b: "scenes h' = done @ visited (touch env xy) (Suc m) (s # todo)"
    using sh by (simp add: shape_def visited_Suc_Cons t)
  have c: "\<forall>i<Suc k. snd (configure env xy ((s # todo) ! i)) = None"
  proof (intro allI impI)
    fix i assume "i < Suc k"
    then show "snd (configure env xy ((s # todo) ! i)) = None"
      using sh cfg by (cases i) (simp_all add: shape_def)
  qed
  have e: "k \<le> m" "m \<le> Suc k" "m \<le> length todo"
    using sh unfolding shape_def by blast+
  have f: "r = None \<longrightarrow> k = length todo"
    using sh unfolding shape_def by blast
  have g: "k < m \<longrightarrow> r = snd (configure env xy (todo ! k)) \<and> r \<noteq> None"
    using sh unfolding shape_def by blast
  have e': "Suc k \<le> Suc m" "Suc m \<le> Suc (Suc k)" "Suc m \<le> length (s # todo)"
    using e by simp_all
  have f': "r = None \<longrightarrow> Suc k = length (s # todo)"
    using f by simp
  have g': "Suc k < Suc m \<longrightarrow> r = snd (configure env xy ((s # todo) ! Suc k)) \<and> r \<noteq> None"
    using g by auto
  show ?thesis
    unfolding shape_def using a b c e' f' g' by blast
qed

lemma for_scenes_shape:
  "for_scenes env xy rop done todo calls = (h', r) \<Longrightarrow>
   \<exists>k m. shape env xy done todo calls h' r k m"
proof (induction todo arbitrary: "done" calls)
  case Nil
  then have "h' = \<lparr>scenes = done, render_calls = calls\<rparr>" "r = None" by simp_all
  then show ?case using shape_Nil by blast
next
  case (Cons s todo)
  obtain s' e where cfg: "configure env xy s = (s', e)" by (cases "configure env xy s")
  show ?case
  proof (cases e)
    case (Some err)
    with cfg have cfg': "configure env xy s = (s', Some err)" by simp
    from Cons.prems have "h' = \<lparr>scenes = done @ s' # todo, render_calls = calls\<rparr>" "r = Some err"
      unfolding for_scenes_Cons_raise [OF cfg'] by simp_all
    then show ?thesis using shape_raise [OF cfg'] by blast
  next
    case None
    with cfg have cfg': "configure env xy s = (s', None)" by simp
    show ?thesis
    proof (cases "rop calls (done @ s' # todo)")
      case False
      from Cons.prems
      have "h' = \<lparr>scenes = done @ s' # todo, render_calls = calls @ [done @ s' # todo]\<rparr>"
        "r = Some RuntimeError"
        unfolding for_scenes_Cons_fail [where rop=rop and calls=calls and todo=todo, OF cfg' False] by simp_all
      then show ?thesis using shape_fail [OF cfg'] by blast
    next
      case True
      from Cons.prems
      have "for_scenes env xy rop (done @ [s']) todo (calls @ [done @ s' # todo]) = (h', r)"
        unfolding for_scenes_Cons_next [where rop=rop and calls=calls and todo=todo, OF cfg' True] .
      from Cons.IH [OF this] obtain k m
        where "shape env xy (done @ [s']) todo (calls @ [done @ s' # todo]) h' r k m"
        by blast
      from shape_next [OF cfg' this] show ?thesis by blast
    qed
  qed
qed

lemma for_scenes_ok:
  "(\<And>s. configure env xy s = (c s, None)) \<Longrightarrow> (\<And>calls snap. rop calls snap) \<Longrightarrow>
   for_scenes env xy rop done todo calls =
     (\<lparr>scenes = done @ map c todo,
       render_calls = calls @ map ((@) done) (snapshots c todo)\<rparr>, None)"
proof (induction todo arbitrary: "done" calls)
  case Nil
  then show ?case by (simp add: snapshots_Nil)
next
  case (Cons s todo)
  then show ?case by (simp add: snapshots_Cons)
qed

subsection \<open>A run of the script\<close>

lemma map_append_Nil: "map ((@) []) xs = xs"
  by (induction xs) simp_all

lemma new_calls_same: "new_calls h h = []"
  by (simp add: new_calls_def)

lemma render_image_no_xy:
  "env ''XY'' = None \<Longrightarrow> render_image env rop h = (h, Some (KeyError ''XY''))"
  by (simp add: render_image_def)

lemma render_image_xy:
  "env ''XY'' = Some xy \<Longrightarrow>
   render_image env rop h = for_scenes env xy rop [] (scenes h) (render_calls h)"
  by (simp add: render_image_def)

lemma render_image_shape:
  assumes xy: "env ''XY'' = Some xy"
  shows "\<exists>k m. shape env xy [] (scenes h) (render_calls h)
           (fst (render_image env rop h)) (snd (render_image env rop h)) k m"
proof -
  have "for_scenes env xy rop [] (scenes h) (render_calls h) =
      (fst (render_image env rop h), snd (render_image env rop h))"
    using xy by (simp add: render_image_xy)
  then show ?thesis by (rule for_scenes_shape)
qed

lemma invocation:
  assumes xy: "env ''XY'' = Some xy"
    and k: "k < length (new_calls h (fst (render_image env rop h)))"
  shows "k < length (scenes h)"
    and "new_calls h (fst (render_image env rop h)) ! k = visited (touch env xy) (Suc k) (scenes h)"
    and "snd (configure env xy (scenes h ! k)) = None"
    and "scenes (fst (render_image env rop h)) ! k = touch env xy (scenes h ! k)"
proof -
  let ?h' = "fst (render_image env rop h)"
  from render_image_shape [where env=env and h=h and rop=rop, OF xy] obtain k0 m where
    sh: "shape env xy [] (scenes h) (render_calls h) ?h' (snd (render_image env rop h)) k0 m"
    by blast
  have km: "k0 \<le> m" "m \<le> length (scenes h)"
    using sh unfolding shape_def by blast+
  have calls: "render_calls ?h' = render_calls h @ take k0 (snapshots (touch env xy) (scenes h))"
    using sh unfolding shape_def by (simp add: map_append_Nil)
  have sc: "scenes ?h' = visited (touch env xy) m (scenes h)"
    using sh unfolding shape_def by simp
  have ok: "\<forall>i<k0. snd (configure env xy (scenes h ! i)) = None"
    using sh unfolding shape_def by blast
  have new: "new_calls h ?h' = take k0 (snapshots (touch env xy) (scenes h))"
    by (simp add: new_calls_def calls)
  have kk: "k < k0" using k km by (simp add: new length_snapshots)
  then show "k < length (scenes h)" using km by simp
  then show "new_calls h ?h' ! k = visited (touch env xy) (Suc k) (scenes h)"
    using kk by (simp add: new nth_snapshots)
  show "snd (configure env xy (scenes h ! k)) = None" using ok kk by blast
  show "scenes ?h' ! k = touch env xy (scenes h ! k)"
    using kk km by (simp add: sc nth_visited)
qed

lemma invocation_configured:
  assumes xy: "env ''XY'' = Some xy"
    and k: "k < length (new_calls h (fst (render_image env rop h)))"
  shows "\<exists>n app_id. int_py xy = Inr n \<and> env ''APP_ID'' = Some app_id \<and>
     new_calls h (fst (render_image env rop h)) ! k ! k =
       configured n (''assets/icons/hicolor/'' @ xy @ ''x'' @ xy @ ''/apps/'' @ app_id @ ''.png'')
         (scenes h ! k) \<and>
     scenes (fst (render_image env rop h)) ! k =
       configured n (''assets/icons/hicolor/'' @ xy @ ''x'' @ xy @ ''/apps/'' @ app_id @ ''.png'')
         (scenes h ! k)"
proof -
  note inv = invocation [where env=env, OF xy k]
  have "configure env xy (scenes h ! k) = (touch env xy (scenes h ! k), None)"
    using inv(3) by (simp add: touch_def prod_eq_iff)
  from configure_None [OF this] obtain n app_id where
    c: "int_py xy = Inr n" "env ''APP_ID'' = Some app_id"
      "touch env xy (scenes h ! k) =
         configured n (''assets/icons/hicolor/'' @ xy @ ''x'' @ xy @ ''/apps/'' @ app_id @ ''.png'')
           (scenes h ! k)"
    by blast
  have "new_calls h (fst (render_image env rop h)) ! k ! k = touch env xy (scenes h ! k)"
    using inv(1) by (simp add: inv(2) nth_visited)
  then show ?thesis using c inv(4) by simp
qed

lemma render_image_ok:
  assumes xy: "env ''XY'' = Some xy" and n: "int_py xy = Inr n"
    and app: "env ''APP_ID'' = Some app_id"
    and rop: "\<And>calls snapshot. rop calls snapshot"
  shows "render_image env rop h =
    (\<lparr>scenes = map (configured n (''assets/icons/hicolor/'' @ xy @ ''x'' @ xy @ ''/apps/'' @ app_id @ ''.png'')) (scenes h),
      render_calls = render_calls h @
        snapshots (configured n (''assets/icons/hicolor/'' @ xy @ ''x'' @ xy @ ''/apps/'' @ app_id @ ''.png'')) (scenes h)\<rparr>,
     None)"
  using for_scenes_ok [where env=env and xy=xy and rop=rop and ?done="[]"
      and c="configured n (''assets/icons/hicolor/'' @ xy @ ''x'' @ xy @ ''/apps/'' @ app_id @ ''.png'')",
      OF configure_complete [where env=env, OF n app] rop]
  by (simp add: render_image_xy [where env=env, OF xy] map_append_Nil)

lemma run_icon:
  "render_image env_icon render_ok two_scenes =
    (\<lparr>scenes = [configured 48 icon_path scene_a, configured 48 icon_path scene_b],
      render_calls = [[configured 48 icon_path scene_a, scene_b],
                      [configured 48 icon_path scene_a, configured 48 icon_path scene_b]]\<rparr>,
     None)"
proof -
  have "env_icon ''XY'' = Some ''48''" "env_icon ''APP_ID'' = Some ''org.example.App''"
    by (simp_all add: env_icon_def)
  from render_image_ok [where env=env_icon and rop=render_ok and h=two_scenes, OF this(1) int_py_48 this(2)]
  show ?thesis
    by (simp add: render_ok_def two_scenes_def icon_path_def snapshots_def visited_def)
qed

subsection \<open>Facts for the concrete runs\<close>

lemma configured_fields:
  "resolution_x (render (configured n p s)) = n"
  "resolution_y (render (configured n p s)) = n"
  "filepath (render (configured n p s)) = p"
  "frame_end (configured n p s) = 1"
  by (simp_all add: configured_def)

lemma new_calls_icon:
  "new_calls two_scenes (fst (render_image env_icon render_ok two_scenes)) =
     [[configured 48 icon_path scene_a, scene_b],
      [configured 48 icon_path scene_a, configured 48 icon_path scene_b]]"
  unfolding new_calls_def run_icon by (simp add: two_scenes_def)

lemma env_icon_xy: "env_icon ''XY'' = Some ''48''"
  by (simp add: env_icon_def)

lemma env_icon_app_id: "env_icon ''APP_ID'' = Some ''org.example.App''"
  by (simp add: env_icon_def)

subsection \<open>Runs that raise in the first pass of the loop body\<close>

lemma int_py_Inl: "int_py xy = Inl e \<Longrightarrow> e = ValueError xy"
  by (auto simp: int_py_def Let_def split: list.splits if_splits option.splits prod.splits)

lemma host_same: "\<lparr>scenes = scenes h, render_calls = render_calls h\<rparr> = h"
  by simp

lemma render_image_no_int:
  assumes xy: "env ''XY'' = Some xy" and e: "int_py xy = Inl e"
  shows "render_image env rop h = (h, if scenes h = [] then None else Some e)"
proof (cases "scenes h")
  case Nil
  then show ?thesis using xy by (simp add: render_image_def)
next
  case (Cons s ss)
  have "render_image env rop h = (\<lparr>scenes = s # ss, render_calls = render_calls h\<rparr>, Some e)"
    unfolding render_image_xy [where env=env, OF xy] Cons
      for_scenes_Cons_raise [OF configure_no_int [OF e]]
    by simp
  also have "\<lparr>scenes = s # ss, render_calls = render_calls h\<rparr> = h"
    using host_same [of h] Cons by simp
  finally show ?thesis using Cons by simp
qed

lemma for_scenes_extends:
  "\<exists>more. render_calls (fst (for_scenes env xy rop done todo calls)) = calls @ more"
proof -
  obtain h' r where run: "for_scenes env xy rop done todo calls = (h', r)"
    by (cases "for_scenes env xy rop done todo calls")
  from for_scenes_shape [OF run] obtain k m where "shape env xy done todo calls h' r k m"
    by blast
  then have "render_calls h' = calls @ map ((@) done) (take k (snapshots (touch env xy) todo))"
    unfolding shape_def by blast
  then show ?thesis using run by simp
qed

lemma first_render:
  assumes xy: "env ''XY'' = Some xy" and ss: "scenes h = s # ss"
    and cfg: "configure env xy s = (s', None)"
  shows "\<exists>more. new_calls h (fst (render_image env rop h)) = (s' # ss) # more"
proof (cases "rop (render_calls h) ([] @ s' # ss)")
  case False
  have "render_image env rop h =
      (\<lparr>scenes = [] @ s' # ss, render_calls = render_calls h @ [[] @ s' # ss]\<rparr>, Some RuntimeError)"
    unfolding render_image_xy [where env=env, OF xy] ss
    by (rule for_scenes_Cons_fail [where rop=rop, OF cfg False])
  then show ?thesis by (simp add: new_calls_def)
next
  case True
  have run: "render_image env rop h =
      for_scenes env xy rop ([] @ [s']) ss (render_calls h @ [[] @ s' # ss])"
    unfolding render_image_xy [where env=env, OF xy] ss
    by (rule for_scenes_Cons_next [where rop=rop, OF cfg True])
  from for_scenes_extends [of env xy rop "[] @ [s']" ss "render_calls h @ [[] @ s' # ss]"]
  obtain more where "render_calls (fst (render_image env rop h)) =
      (render_calls h @ [[] @ s' # ss]) @ more"
    unfolding run by blast
  then show ?thesis by (simp add: new_calls_def)
qed

section \<open>The claims\<close>

text \<open>
  Claim C1. Whenever \<open>XY\<close> is set to a string that \<open>int\<close> parses and \<open>APP_ID\<close> is set, the
  path the script computes is exactly \<open>assets/icons/hicolor/\<close>, \<open>XY\<close>, \<open>x\<close>, \<open>XY\<close>,
  \<open>/apps/\<close>, \<open>APP_ID\<close>, \<open>.png\<close>, both strings verbatim: the formatting of the template
  returns it, the loop body stores it in the \<open>filepath\<close> of whatever scene it runs on, and
  at every render invocation of a run the scene the loop is at holds it, as does that scene
  when the run ends. This covers every positive-integer string \<open>XY\<close> and every non-empty
  \<open>APP_ID\<close>; neither the sign of the integer nor the non-emptiness is needed.
\<close>

theorem output_path_exact:
  assumes xy: "env ''XY'' = Some xy" and n: "int_py xy = Inr n"
    and app: "env ''APP_ID'' = Some app_id"
  shows "percent_format path_template [xy, xy, app_id] =
      Inr (''assets/icons/hicolor/'' @ xy @ ''x'' @ xy @ ''/apps/'' @ app_id @ ''.png'') \<and>
    (\<forall>s. configure env xy s = (touch env xy s, None) \<and>
       filepath (render (touch env xy s)) =
         ''assets/icons/hicolor/'' @ xy @ ''x'' @ xy @ ''/apps/'' @ app_id @ ''.png'') \<and>
    (\<forall>k<length (new_calls h (fst (render_image env rop h))).
       filepath (render (new_calls h (fst (render_image env rop h)) ! k ! k)) =
         ''assets/icons/hicolor/'' @ xy @ ''x'' @ xy @ ''/apps/'' @ app_id @ ''.png'' \<and>
       filepath (render (scenes (fst (render_image env rop h)) ! k)) =
         ''assets/icons/hicolor/'' @ xy @ ''x'' @ xy @ ''/apps/'' @ app_id @ ''.png'')"
proof (intro conjI allI impI)
  show "percent_format path_template [xy, xy, app_id] =
      Inr (''assets/icons/hicolor/'' @ xy @ ''x'' @ xy @ ''/apps/'' @ app_id @ ''.png'')"
    by (rule path_format)
next
  fix s
  show "configure env xy s = (touch env xy s, None)"
    by (simp add: touch_def configure_complete [where env=env, OF n app])
  show "filepath (render (touch env xy s)) =
      ''assets/icons/hicolor/'' @ xy @ ''x'' @ xy @ ''/apps/'' @ app_id @ ''.png''"
    by (simp add: touch_def configure_complete [where env=env, OF n app] configured_fields)
next
  fix k assume k: "k < length (new_calls h (fst (render_image env rop h)))"
  from invocation_configured [where env=env, OF xy k] app
  show "filepath (render (new_calls h (fst (render_image env rop h)) ! k ! k)) =
      ''assets/icons/hicolor/'' @ xy @ ''x'' @ xy @ ''/apps/'' @ app_id @ ''.png''"
    by (auto simp: configured_fields)
  from invocation_configured [where env=env, OF xy k] app
  show "filepath (render (scenes (fst (render_image env rop h)) ! k)) =
      ''assets/icons/hicolor/'' @ xy @ ''x'' @ xy @ ''/apps/'' @ app_id @ ''.png''"
    by (auto simp: configured_fields)
qed

theorem output_path_exact_witness:
  "env_icon ''XY'' = Some ''48'' \<and> int_py ''48'' = Inr 48 \<and>
   env_icon ''APP_ID'' = Some ''org.example.App'' \<and>
   percent_format path_template [''48'', ''48'', ''org.example.App''] = Inr icon_path \<and>
   filepath (render (touch env_icon ''48'' scene_a)) = icon_path \<and>
   length (new_calls two_scenes (fst (render_image env_icon render_ok two_scenes))) = 2 \<and>
   filepath (render (new_calls two_scenes (fst (render_image env_icon render_ok two_scenes)) ! 0 ! 0)) = icon_path \<and>
   filepath (render (new_calls two_scenes (fst (render_image env_icon render_ok two_scenes)) ! 1 ! 1)) = icon_path \<and>
   filepath (render (scenes (fst (render_image env_icon render_ok two_scenes)) ! 0)) = icon_path \<and>
   filepath (render (scenes (fst (render_image env_icon render_ok two_scenes)) ! 1)) = icon_path"
proof -
  note t = output_path_exact [where env=env_icon and h=two_scenes and rop=render_ok,
      OF env_icon_xy int_py_48 env_icon_app_id]
  have len: "length (new_calls two_scenes (fst (render_image env_icon render_ok two_scenes))) = 2"
    by (simp add: new_calls_icon)
  have p: "''assets/icons/hicolor/'' @ ''48'' @ ''x'' @ ''48'' @ ''/apps/'' @ ''org.example.App'' @ ''.png'' = icon_path"
    by (simp add: icon_path_def)
  from t have a: "percent_format path_template [''48'', ''48'', ''org.example.App''] = Inr icon_path"
    unfolding p by blast
  from t have b: "filepath (render (touch env_icon ''48'' scene_a)) = icon_path"
    unfolding p by blast
  from t have c: "\<forall>k<2.
       filepath (render (new_calls two_scenes (fst (render_image env_icon render_ok two_scenes)) ! k ! k)) = icon_path \<and>
       filepath (render (scenes (fst (render_image env_icon render_ok two_scenes)) ! k)) = icon_path"
    unfolding p len by blast
  from c have c0: "filepath (render (new_calls two_scenes (fst (render_image env_icon render_ok two_scenes)) ! 0 ! 0)) = icon_path \<and>
       filepath (render (scenes (fst (render_image env_icon render_ok two_scenes)) ! 0)) = icon_path"
    by simp
  from c have c1: "filepath (render (new_calls two_scenes (fst (render_image env_icon render_ok two_scenes)) ! 1 ! 1)) = icon_path \<and>
       filepath (render (scenes (fst (render_image env_icon render_ok two_scenes)) ! 1)) = icon_path"
    by simp
  show ?thesis
    using env_icon_xy int_py_48 env_icon_app_id a b len c0 c1 by blast
qed

text \<open>
  Claim C2 says that a run fails whenever \<open>XY\<close> is absent or not numeric. The lookup of \<open>XY\<close>
  is line 3, before the loop, but \<open>int(xy)\<close> stands inside the loop body: with a
  non-numeric \<open>XY\<close> and an empty scene collection the body is never entered and the run ends
  without an exception.
\<close>

theorem non_numeric_xy_counterexample:
  "env_abc ''XY'' = Some ''abc'' \<and> int_py ''abc'' = Inl (ValueError ''abc'') \<and>
   scenes no_scenes = [] \<and>
   render_image env_abc render_ok no_scenes = (no_scenes, None)"
  by (simp add: int_py_abc env_abc_def render_image_def no_scenes_def)

text \<open>
  Claim C2, amended. If \<open>XY\<close> is absent, the run fails with the \<open>KeyError\<close> of \<open>XY\<close>. If \<open>XY\<close>
  is set to a string that \<open>int\<close> does not parse, the run fails with the \<open>ValueError\<close> of that
  string when the scene collection is not empty, and ends without an exception when it is
  empty. In all these cases the host is left as it was: no scene is mutated and the render
  operator is not invoked.
\<close>

theorem xy_absent_or_non_numeric:
  "(env ''XY'' = None \<longrightarrow> render_image env rop h = (h, Some (KeyError ''XY''))) \<and>
   (\<forall>xy e. env ''XY'' = Some xy \<and> int_py xy = Inl e \<longrightarrow>
      e = ValueError xy \<and>
      render_image env rop h = (h, if scenes h = [] then None else Some (ValueError xy))) \<and>
   (env ''XY'' = None \<or> (\<exists>xy e. env ''XY'' = Some xy \<and> int_py xy = Inl e) \<longrightarrow>
      new_calls h (fst (render_image env rop h)) = [] \<and>
      scenes (fst (render_image env rop h)) = scenes h)"
proof -
  have a: "render_image env rop h = (h, Some (KeyError ''XY''))" if "env ''XY'' = None"
    using that by (rule render_image_no_xy)
  have b: "e = ValueError xy \<and>
      render_image env rop h = (h, if scenes h = [] then None else Some (ValueError xy))"
    if "env ''XY'' = Some xy" "int_py xy = Inl e" for xy e
    using render_image_no_int [where env=env and rop=rop and h=h, OF that] int_py_Inl [OF that(2)]
    by simp
  have c: "new_calls h (fst (render_image env rop h)) = [] \<and>
      scenes (fst (render_image env rop h)) = scenes h"
    if "env ''XY'' = None \<or> (\<exists>xy e. env ''XY'' = Some xy \<and> int_py xy = Inl e)"
  proof -
    from that a b have "fst (render_image env rop h) = h" by auto
    then show ?thesis by (simp add: new_calls_same)
  qed
  show ?thesis using a b c by blast
qed

theorem xy_absent_or_non_numeric_witness:
  "env_no_xy ''XY'' = None \<and>
   render_image env_no_xy render_ok two_scenes = (two_scenes, Some (KeyError ''XY'')) \<and>
   env_abc ''XY'' = Some ''abc'' \<and> int_py ''abc'' = Inl (ValueError ''abc'') \<and>
   render_image env_abc render_ok two_scenes = (two_scenes, Some (ValueError ''abc'')) \<and>
   new_calls two_scenes (fst (render_image env_abc render_ok two_scenes)) = []"
proof -
  have a: "env_no_xy ''XY'' = None" by (simp add: env_no_xy_def)
  have b: "env_abc ''XY'' = Some ''abc''" by (simp add: env_abc_def)
  have ne: "scenes two_scenes \<noteq> []" by (simp add: two_scenes_def)
  from xy_absent_or_non_numeric [where env=env_no_xy and rop=render_ok and h=two_scenes] a
  have c: "render_image env_no_xy render_ok two_scenes = (two_scenes, Some (KeyError ''XY''))"
    by blast
  note t = xy_absent_or_non_numeric [where env=env_abc and rop=render_ok and h=two_scenes]
  from t b int_py_abc
  have "render_image env_abc render_ok two_scenes =
      (two_scenes, if scenes two_scenes = [] then None else Some (ValueError ''abc''))"
    by blast
  then have d: "render_image env_abc render_ok two_scenes = (two_scenes, Some (ValueError ''abc''))"
    using ne by simp
  from t b int_py_abc
  have e: "new_calls two_scenes (fst (render_image env_abc render_ok two_scenes)) = []"
    by blast
  show ?thesis using a b c d e int_py_abc by blast
qed

text \<open>
  Claim C3 says that a run fails whenever \<open>APP_ID\<close> is absent. The lookup of \<open>APP_ID\<close> stands
  inside the loop body (line 7): with \<open>XY\<close> set and an empty scene collection the body is
  never entered and the run ends without an exception.
\<close>

theorem missing_app_id_counterexample:
  "env_no_app ''APP_ID'' = None \<and> scenes no_scenes = [] \<and>
   render_image env_no_app render_ok no_scenes = (no_scenes, None)"
  by (simp add: env_no_app_def render_image_def no_scenes_def)

text \<open>
  Claim C3, amended. If \<open>APP_ID\<close> is absent, the render operator is never invoked. The run
  fails when the scene collection is not empty or \<open>XY\<close> is absent as well; with \<open>XY\<close> set to
  a string that \<open>int\<close> parses and a collection that is not empty, the failure is the
  \<open>KeyError\<close> of \<open>APP_ID\<close>. With \<open>XY\<close> set and an empty collection the run ends without an
  exception.
\<close>

theorem app_id_absent:
  assumes app: "env ''APP_ID'' = None"
  shows "new_calls h (fst (render_image env rop h)) = [] \<and>
    (scenes h \<noteq> [] \<or> env ''XY'' = None \<longrightarrow> snd (render_image env rop h) \<noteq> None) \<and>
    (\<forall>xy n. scenes h \<noteq> [] \<and> env ''XY'' = Some xy \<and> int_py xy = Inr n \<longrightarrow>
       snd (render_image env rop h) = Some (KeyError ''APP_ID'')) \<and>
    (scenes h = [] \<and> env ''XY'' \<noteq> None \<longrightarrow> render_image env rop h = (h, None))"
proof (cases "env ''XY''")
  case None
  then show ?thesis by (simp add: render_image_no_xy new_calls_same)
next
  case (Some xy)
  show ?thesis
  proof (cases "scenes h")
    case Nil
    then have "render_image env rop h = (h, None)"
      using Some by (simp add: render_image_def)
    then show ?thesis using Nil Some by (simp add: new_calls_same)
  next
    case (Cons s ss)
    show ?thesis
    proof (cases "int_py xy")
      case (Inl e)
      from render_image_no_int [where env=env and rop=rop and h=h, OF Some Inl]
      show ?thesis using Cons Some Inl by (simp add: new_calls_same)
    next
      case (Inr n)
      have "render_image env rop h =
          (\<lparr>scenes = [] @ s\<lparr>render := (render s)\<lparr>resolution_x := n, resolution_y := n\<rparr>\<rparr> # ss,
            render_calls = render_calls h\<rparr>, Some (KeyError ''APP_ID''))"
        unfolding render_image_xy [where env=env, OF Some] Cons
        by (rule for_scenes_Cons_raise [OF configure_no_app_id [where env=env, OF Inr app]])
      then show ?thesis using Cons Some Inr by (simp add: new_calls_def)
    qed
  qed
qed

theorem app_id_absent_witness:
  "env_no_app ''APP_ID'' = None \<and> env_no_app ''XY'' = Some ''48'' \<and> int_py ''48'' = Inr 48 \<and>
   scenes one_scene = [scene_a] \<and>
   new_calls one_scene (fst (render_image env_no_app render_ok one_scene)) = [] \<and>
   snd (render_image env_no_app render_ok one_scene) = Some (KeyError ''APP_ID'')"
proof -
  have a: "env_no_app ''APP_ID'' = None" by (simp add: env_no_app_def)
  have b: "env_no_app ''XY'' = Some ''48''" by (simp add: env_no_app_def)
  have c: "scenes one_scene = [scene_a]" by (simp add: one_scene_def)
  then have ne: "scenes one_scene \<noteq> []" by simp
  note t = app_id_absent [where env=env_no_app and rop=render_ok and h=one_scene, OF a]
  from t have d: "new_calls one_scene (fst (render_image env_no_app render_ok one_scene)) = []"
    by blast
  from t ne b int_py_48
  have e: "snd (render_image env_no_app render_ok one_scene) = Some (KeyError ''APP_ID'')"
    by blast
  show ?thesis using a b c d e int_py_48 by blast
qed

text \<open>
  Claim C4 says that the script fails for every \<open>XY\<close> that is not a positive integer, zero
  and negative integers included. The script has no check of the sign: \<open>int\<close> parses \<open>0\<close> and
  \<open>-5\<close>, and the run stores the value as the resolution, invokes the render operator and
  ends without an exception.
\<close>

theorem non_positive_xy_counterexample:
  "int_py ''0'' = Inr 0 \<and>
   render_image env_zero render_ok one_scene =
     (\<lparr>scenes = [configured 0 ''assets/icons/hicolor/0x0/apps/org.example.App.png'' scene_a],
       render_calls = [[configured 0 ''assets/icons/hicolor/0x0/apps/org.example.App.png'' scene_a]]\<rparr>,
      None) \<and>
   int_py ''-5'' = Inr (- 5) \<and>
   render_image env_minus render_ok one_scene =
     (\<lparr>scenes = [configured (- 5) ''assets/icons/hicolor/-5x-5/apps/org.example.App.png'' scene_a],
       render_calls = [[configured (- 5) ''assets/icons/hicolor/-5x-5/apps/org.example.App.png'' scene_a]]\<rparr>,
      None)"
proof -
  have m: "int_py ''-5'' = Inr (- 5)" by (simp add: int_py_eval)
  have z: "env_zero ''XY'' = Some ''0''" "env_zero ''APP_ID'' = Some ''org.example.App''"
    by (simp_all add: env_zero_def)
  have f: "env_minus ''XY'' = Some ''-5''" "env_minus ''APP_ID'' = Some ''org.example.App''"
    by (simp_all add: env_minus_def)
  have ok: "\<And>calls snapshot. (render_ok :: (nat, string) render_op) calls snapshot"
    by (simp add: render_ok_def)
  have a: "render_image env_zero render_ok one_scene =
     (\<lparr>scenes = [configured 0 ''assets/icons/hicolor/0x0/apps/org.example.App.png'' scene_a],
       render_calls = [[configured 0 ''assets/icons/hicolor/0x0/apps/org.example.App.png'' scene_a]]\<rparr>,
      None)"
    unfolding render_image_ok [where env=env_zero and rop=render_ok, OF z(1) int_py_0 z(2) ok]
    by (simp add: one_scene_def snapshots_def visited_def)
  have b: "render_image env_minus render_ok one_scene =
     (\<lparr>scenes = [configured (- 5) ''assets/icons/hicolor/-5x-5/apps/org.example.App.png'' scene_a],
       render_calls = [[configured (- 5) ''assets/icons/hicolor/-5x-5/apps/org.example.App.png'' scene_a]]\<rparr>,
      None)"
    unfolding render_image_ok [where env=env_minus and rop=render_ok, OF f(1) m f(2) ok]
    by (simp add: one_scene_def snapshots_def visited_def)
  show ?thesis using int_py_0 m a b by blast
qed

text \<open>
  Claim C4, amended. With at least one scene in the collection, the script fails for every
  \<open>XY\<close> that \<open>int\<close> does not parse as an integer: the run ends with the \<open>ValueError\<close>, the
  host as it was, no default resolution set and nothing rendered. An \<open>XY\<close> that parses as
  an integer is accepted whatever its sign, zero and negative integers included: with
  \<open>APP_ID\<close> set, the first scene gets that integer as \<open>resolution_x\<close> and \<open>resolution_y\<close> and
  the render operator is invoked on the collection so configured.
\<close>

theorem xy_must_parse_sign_unchecked:
  assumes xy: "env ''XY'' = Some xy" and ss: "scenes h = s # ss"
  shows "(\<forall>e. int_py xy = Inl e \<longrightarrow> render_image env rop h = (h, Some e)) \<and>
    (\<forall>n app_id. int_py xy = Inr n \<and> env ''APP_ID'' = Some app_id \<longrightarrow>
       new_calls h (fst (render_image env rop h)) \<noteq> [] \<and>
       hd (new_calls h (fst (render_image env rop h))) =
         configured n (''assets/icons/hicolor/'' @ xy @ ''x'' @ xy @ ''/apps/'' @ app_id @ ''.png'') s # ss \<and>
       resolution_x (render (hd (hd (new_calls h (fst (render_image env rop h)))))) = n \<and>
       resolution_y (render (hd (hd (new_calls h (fst (render_image env rop h)))))) = n)"
proof (intro conjI allI impI)
  fix e assume "int_py xy = Inl e"
  from render_image_no_int [where env=env and rop=rop and h=h, OF xy this]
  show "render_image env rop h = (h, Some e)" using ss by simp
next
  fix n app_id assume a: "int_py xy = Inr n \<and> env ''APP_ID'' = Some app_id"
  let ?s' = "configured n (''assets/icons/hicolor/'' @ xy @ ''x'' @ xy @ ''/apps/'' @ app_id @ ''.png'') s"
  from a have "configure env xy s = (?s', None)"
    by (simp add: configure_complete)
  from first_render [where env=env and rop=rop, OF xy ss this]
  obtain more where new: "new_calls h (fst (render_image env rop h)) = (?s' # ss) # more"
    by blast
  show "new_calls h (fst (render_image env rop h)) \<noteq> []"
    unfolding new by simp
  show "hd (new_calls h (fst (render_image env rop h))) = ?s' # ss"
    unfolding new by simp
  show "resolution_x (render (hd (hd (new_calls h (fst (render_image env rop h)))))) = n"
    unfolding new by (simp add: configured_fields)
  show "resolution_y (render (hd (hd (new_calls h (fst (render_image env rop h)))))) = n"
    unfolding new by (simp add: configured_fields)
qed

theorem xy_must_parse_sign_unchecked_witness:
  "env_abc ''XY'' = Some ''abc'' \<and> int_py ''abc'' = Inl (ValueError ''abc'') \<and>
   scenes one_scene = [scene_a] \<and>
   render_image env_abc render_fails one_scene = (one_scene, Some (ValueError ''abc'')) \<and>
   env_minus ''XY'' = Some ''-5'' \<and> int_py ''-5'' = Inr (- 5) \<and>
   env_minus ''APP_ID'' = Some ''org.example.App'' \<and>
   new_calls one_scene (fst (render_image env_minus render_fails one_scene)) \<noteq> [] \<and>
   resolution_x (render (hd (hd (new_calls one_scene (fst (render_image env_minus render_fails one_scene)))))) = - 5 \<and>
   resolution_y (render (hd (hd (new_calls one_scene (fst (render_image env_minus render_fails one_scene)))))) = - 5"
proof -
  have a: "env_abc ''XY'' = Some ''abc''" by (simp add: env_abc_def)
  have c: "scenes one_scene = [scene_a]" by (simp add: one_scene_def)
  have m: "int_py ''-5'' = Inr (- 5)" by (simp add: int_py_eval)
  have f: "env_minus ''XY'' = Some ''-5''" "env_minus ''APP_ID'' = Some ''org.example.App''"
    by (simp_all add: env_minus_def)
  from xy_must_parse_sign_unchecked [where env=env_abc and rop=render_fails, OF a c] int_py_abc
  have d: "render_image env_abc render_fails one_scene = (one_scene, Some (ValueError ''abc''))"
    by blast
  from xy_must_parse_sign_unchecked [where env=env_minus and rop=render_fails, OF f(1) c] m f(2)
  have e: "new_calls one_scene (fst (render_image env_minus render_fails one_scene)) \<noteq> [] \<and>
     resolution_x (render (hd (hd (new_calls one_scene (fst (render_image env_minus render_fails one_scene)))))) = - 5 \<and>
     resolution_y (render (hd (hd (new_calls one_scene (fst (render_image env_minus render_fails one_scene)))))) = - 5"
    by blast
  show ?thesis using a int_py_abc c d f m e by blast
qed

text \<open>
  Claim C5. With \<open>XY\<close> set to a string that \<open>int\<close> parses, \<open>APP_ID\<close> set and a host whose
  render operator does not fail, a run over a collection of \<open>N\<close> scenes ends without an
  exception after exactly \<open>N\<close> render invocations. The invocations follow the collection
  order, one per scene: at invocation \<open>k\<close> (counting from 0) the scenes up to and
  including scene \<open>k\<close> are configured and the later ones are as they were. The scene the
  loop is at holds the same computed path at every invocation, so each render is told to write
  the same file.
\<close>

theorem one_render_per_scene:
  assumes xy: "env ''XY'' = Some xy" and n: "int_py xy = Inr n"
    and app: "env ''APP_ID'' = Some app_id"
    and rop: "\<And>calls snapshot. rop calls snapshot"
  shows "snd (render_image env rop h) = None \<and>
    length (new_calls h (fst (render_image env rop h))) = length (scenes h) \<and>
    (\<forall>k<length (scenes h).
       new_calls h (fst (render_image env rop h)) ! k =
         map (configured n (''assets/icons/hicolor/'' @ xy @ ''x'' @ xy @ ''/apps/'' @ app_id @ ''.png''))
           (take (Suc k) (scenes h)) @ drop (Suc k) (scenes h) \<and>
       filepath (render (new_calls h (fst (render_image env rop h)) ! k ! k)) =
         ''assets/icons/hicolor/'' @ xy @ ''x'' @ xy @ ''/apps/'' @ app_id @ ''.png'')"
proof -
  let ?p = "''assets/icons/hicolor/'' @ xy @ ''x'' @ xy @ ''/apps/'' @ app_id @ ''.png''"
  note run = render_image_ok [where env=env and rop=rop and h=h, OF xy n app rop]
  have new: "new_calls h (fst (render_image env rop h)) = snapshots (configured n ?p) (scenes h)"
    unfolding run by (simp add: new_calls_def)
  have a: "snd (render_image env rop h) = None"
    unfolding run by simp
  have b: "length (new_calls h (fst (render_image env rop h))) = length (scenes h)"
    unfolding new by (rule length_snapshots)
  have c: "new_calls h (fst (render_image env rop h)) ! k =
      map (configured n ?p) (take (Suc k) (scenes h)) @ drop (Suc k) (scenes h) \<and>
      filepath (render (new_calls h (fst (render_image env rop h)) ! k ! k)) = ?p"
    if k: "k < length (scenes h)" for k
  proof -
    have "new_calls h (fst (render_image env rop h)) ! k = visited (configured n ?p) (Suc k) (scenes h)"
      unfolding new using k by (rule nth_snapshots)
    moreover have "visited (configured n ?p) (Suc k) (scenes h) ! k = configured n ?p (scenes h ! k)"
      using k by (simp add: nth_visited)
    ultimately show ?thesis by (simp add: visited_def configured_fields)
  qed
  show ?thesis using a b c by blast
qed

theorem one_render_per_scene_witness:
  "env_icon ''XY'' = Some ''48'' \<and> int_py ''48'' = Inr 48 \<and>
   env_icon ''APP_ID'' = Some ''org.example.App'' \<and> render_ok [] [scene_a, scene_b] \<and>
   snd (render_image env_icon render_ok two_scenes) = None \<and>
   length (new_calls two_scenes (fst (render_image env_icon render_ok two_scenes))) = 2 \<and>
   new_calls two_scenes (fst (render_image env_icon render_ok two_scenes)) ! 0 =
     [configured 48 icon_path scene_a, scene_b] \<and>
   new_calls two_scenes (fst (render_image env_icon render_ok two_scenes)) ! 1 =
     [configured 48 icon_path scene_a, configured 48 icon_path scene_b] \<and>
   filepath (render (new_calls two_scenes (fst (render_image env_icon render_ok two_scenes)) ! 0 ! 0)) = icon_path \<and>
   filepath (render (new_calls two_scenes (fst (render_image env_icon render_ok two_scenes)) ! 1 ! 1)) = icon_path"
proof -
  have ok: "\<And>calls snapshot. (render_ok :: (nat, string) render_op) calls snapshot"
    by (simp add: render_ok_def)
  note t = one_render_per_scene [where env=env_icon and h=two_scenes and rop=render_ok,
      OF env_icon_xy int_py_48 env_icon_app_id ok]
  have p: "''assets/icons/hicolor/'' @ ''48'' @ ''x'' @ ''48'' @ ''/apps/'' @ ''org.example.App'' @ ''.png'' = icon_path"
    by (simp add: icon_path_def)
  have len: "length (scenes two_scenes) = 2" by (simp add: two_scenes_def)
  from t have a: "snd (render_image env_icon render_ok two_scenes) = None"
    and b: "length (new_calls two_scenes (fst (render_image env_icon render_ok two_scenes))) = 2"
    unfolding len by blast+
  from t have c: "\<forall>k<2.
       new_calls two_scenes (fst (render_image env_icon render_ok two_scenes)) ! k =
         map (configured 48 icon_path) (take (Suc k) (scenes two_scenes)) @ drop (Suc k) (scenes two_scenes) \<and>
       filepath (render (new_calls two_scenes (fst (render_image env_icon render_ok two_scenes)) ! k ! k)) = icon_path"
    unfolding p len by blast
  have "(0::nat) < 2" by simp
  with c have c0: "new_calls two_scenes (fst (render_image env_icon render_ok two_scenes)) ! 0 =
         map (configured 48 icon_path) (take (Suc 0) (scenes two_scenes)) @ drop (Suc 0) (scenes two_scenes) \<and>
       filepath (render (new_calls two_scenes (fst (render_image env_icon render_ok two_scenes)) ! 0 ! 0)) = icon_path"
    by blast
  have "(1::nat) < 2" by simp
  with c have c1: "new_calls two_scenes (fst (render_image env_icon render_ok two_scenes)) ! 1 =
         map (configured 48 icon_path) (take (Suc 1) (scenes two_scenes)) @ drop (Suc 1) (scenes two_scenes) \<and>
       filepath (render (new_calls two_scenes (fst (render_image env_icon render_ok two_scenes)) ! 1 ! 1)) = icon_path"
    by blast
  have d0: "map (configured 48 icon_path) (take (Suc 0) (scenes two_scenes)) @ drop (Suc 0) (scenes two_scenes)
      = [configured 48 icon_path scene_a, scene_b]"
    by (simp add: two_scenes_def)
  have d1: "map (configured 48 icon_path) (take (Suc 1) (scenes two_scenes)) @ drop (Suc 1) (scenes two_scenes)
      = [configured 48 icon_path scene_a, configured 48 icon_path scene_b]"
    by (simp add: two_scenes_def)
  have e: "render_ok [] [scene_a, scene_b]" by (simp add: render_ok_def)
  show ?thesis
    using env_icon_xy int_py_48 env_icon_app_id e a b c0 c1 unfolding d0 d1 by blast
qed

text \<open>
  Claim C6. With \<open>XY\<close> set to a string that \<open>int\<close> parses as \<open>n\<close> (a positive integer in
  particular), at every render invocation of a run the scene the loop is at has both
  \<open>resolution_x\<close> and \<open>resolution_y\<close> equal to \<open>n\<close>, and so has that scene when the run ends.
  When moreover \<open>APP_ID\<close> is set and the host's render operator does not fail, there is
  such an invocation for every scene of the collection.
\<close>

theorem square_resolution_before_render:
  assumes xy: "env ''XY'' = Some xy" and n: "int_py xy = Inr n"
  shows "(\<forall>k<length (new_calls h (fst (render_image env rop h))).
       resolution_x (render (new_calls h (fst (render_image env rop h)) ! k ! k)) = n \<and>
       resolution_y (render (new_calls h (fst (render_image env rop h)) ! k ! k)) = n \<and>
       resolution_x (render (scenes (fst (render_image env rop h)) ! k)) = n \<and>
       resolution_y (render (scenes (fst (render_image env rop h)) ! k)) = n) \<and>
    (env ''APP_ID'' \<noteq> None \<and> (\<forall>calls snapshot. rop calls snapshot) \<longrightarrow>
       length (new_calls h (fst (render_image env rop h))) = length (scenes h))"
proof (intro conjI allI impI)
  fix k assume k: "k < length (new_calls h (fst (render_image env rop h)))"
  from invocation_configured [where env=env, OF xy k] n
  have "\<exists>p. new_calls h (fst (render_image env rop h)) ! k ! k = configured n p (scenes h ! k) \<and>
     scenes (fst (render_image env rop h)) ! k = configured n p (scenes h ! k)"
    by auto
  then obtain p where
    p: "new_calls h (fst (render_image env rop h)) ! k ! k = configured n p (scenes h ! k)"
       "scenes (fst (render_image env rop h)) ! k = configured n p (scenes h ! k)"
    by blast
  show "resolution_x (render (new_calls h (fst (render_image env rop h)) ! k ! k)) = n"
    unfolding p by (rule configured_fields)
  show "resolution_y (render (new_calls h (fst (render_image env rop h)) ! k ! k)) = n"
    unfolding p by (rule configured_fields)
  show "resolution_x (render (scenes (fst (render_image env rop h)) ! k)) = n"
    unfolding p by (rule configured_fields)
  show "resolution_y (render (scenes (fst (render_image env rop h)) ! k)) = n"
    unfolding p by (rule configured_fields)
next
  assume a: "env ''APP_ID'' \<noteq> None \<and> (\<forall>calls snapshot. rop calls snapshot)"
  then obtain app_id where app: "env ''APP_ID'' = Some app_id" by blast
  from a have rop: "\<And>calls snapshot. rop calls snapshot" by blast
  show "length (new_calls h (fst (render_image env rop h))) = length (scenes h)"
    unfolding render_image_ok [where env=env and rop=rop and h=h, OF xy n app rop]
    by (simp add: new_calls_def length_snapshots)
qed

theorem square_resolution_before_render_witness:
  "env_icon ''XY'' = Some ''48'' \<and> int_py ''48'' = Inr 48 \<and>
   length (new_calls two_scenes (fst (render_image env_icon render_ok two_scenes))) = 2 \<and>
   resolution_x (render (new_calls two_scenes (fst (render_image env_icon render_ok two_scenes)) ! 0 ! 0)) = 48 \<and>
   resolution_y (render (new_calls two_scenes (fst (render_image env_icon render_ok two_scenes)) ! 0 ! 0)) = 48 \<and>
   resolution_x (render (new_calls two_scenes (fst (render_image env_icon render_ok two_scenes)) ! 1 ! 1)) = 48 \<and>
   resolution_y (render (new_calls two_scenes (fst (render_image env_icon render_ok two_scenes)) ! 1 ! 1)) = 48 \<and>
   resolution_x (render (scenes (fst (render_image env_icon render_ok two_scenes)) ! 1)) = 48 \<and>
   resolution_y (render (scenes (fst (render_image env_icon render_ok two_scenes)) ! 1)) = 48"
proof -
  note t = square_resolution_before_render [where env=env_icon and h=two_scenes and rop=render_ok,
      OF env_icon_xy int_py_48]
  have ok: "\<forall>calls snapshot. (render_ok :: (nat, string) render_op) calls snapshot"
    by (simp add: render_ok_def)
  have app: "env_icon ''APP_ID'' \<noteq> None" by (simp add: env_icon_app_id)
  from t app ok
  have len: "length (new_calls two_scenes (fst (render_image env_icon render_ok two_scenes))) = 2"
    by (simp add: two_scenes_def)
  from t have c: "\<forall>k<2.
       resolution_x (render (new_calls two_scenes (fst (render_image env_icon render_ok two_scenes)) ! k ! k)) = 48 \<and>
       resolution_y (render (new_calls two_scenes (fst (render_image env_icon render_ok two_scenes)) ! k ! k)) = 48 \<and>
       resolution_x (render (scenes (fst (render_image env_icon render_ok two_scenes)) ! k)) = 48 \<and>
       resolution_y (render (scenes (fst (render_image env_icon render_ok two_scenes)) ! k)) = 48"
    unfolding len by blast
  have "(0::nat) < 2" by simp
  with c have c0: "resolution_x (render (new_calls two_scenes (fst (render_image env_icon render_ok two_scenes)) ! 0 ! 0)) = 48 \<and>
       resolution_y (render (new_calls two_scenes (fst (render_image env_icon render_ok two_scenes)) ! 0 ! 0)) = 48"
    by blast
  have "(1::nat) < 2" by simp
  with c have c1: "resolution_x (render (new_calls two_scenes (fst (render_image env_icon render_ok two_scenes)) ! 1 ! 1)) = 48 \<and>
       resolution_y (render (new_calls two_scenes (fst (render_image env_icon render_ok two_scenes)) ! 1 ! 1)) = 48 \<and>
       resolution_x (render (scenes (fst (render_image env_icon render_ok two_scenes)) ! 1)) = 48 \<and>
       resolution_y (render (scenes (fst (render_image env_icon render_ok two_scenes)) ! 1)) = 48"
    by blast
  show ?thesis
    using env_icon_xy int_py_48 len c0 c1 by blast
qed

text \<open>
  Claim C7. In every run, whatever the environment and the host, at every render invocation
  the scene the loop is at has \<open>frame_end\<close> equal to 1, and so has that scene when the run
  ends: the store of line 8 precedes the render call of line 9.
\<close>

theorem single_frame_before_render:
  "\<forall>k<length (new_calls h (fst (render_image env rop h))).
     frame_end (new_calls h (fst (render_image env rop h)) ! k ! k) = 1 \<and>
     frame_end (scenes (fst (render_image env rop h)) ! k) = 1"
proof (cases "env ''XY''")
  case None
  then show ?thesis by (simp add: render_image_no_xy new_calls_same)
next
  case (Some xy)
  show ?thesis
  proof (intro allI impI)
    fix k assume k: "k < length (new_calls h (fst (render_image env rop h)))"
    from invocation_configured [where env=env, OF Some k] obtain n p where
      p: "new_calls h (fst (render_image env rop h)) ! k ! k = configured n p (scenes h ! k)"
         "scenes (fst (render_image env rop h)) ! k = configured n p (scenes h ! k)"
      by blast
    show "frame_end (new_calls h (fst (render_image env rop h)) ! k ! k) = 1 \<and>
       frame_end (scenes (fst (render_image env rop h)) ! k) = 1"
      unfolding p by (simp add: configured_fields)
  qed
qed

theorem single_frame_before_render_witness:
  "length (new_calls two_scenes (fst (render_image env_icon render_ok two_scenes))) = 2 \<and>
   frame_end scene_a = 250 \<and> frame_end scene_b = 24 \<and>
   frame_end (new_calls two_scenes (fst (render_image env_icon render_ok two_scenes)) ! 0 ! 0) = 1 \<and>
   frame_end (new_calls two_scenes (fst (render_image env_icon render_ok two_scenes)) ! 1 ! 1) = 1 \<and>
   frame_end (scenes (fst (render_image env_icon render_ok two_scenes)) ! 0) = 1 \<and>
   frame_end (scenes (fst (render_image env_icon render_ok two_scenes)) ! 1) = 1"
proof -
  note t = single_frame_before_render [where env=env_icon and h=two_scenes and rop=render_ok]
  have len: "length (new_calls two_scenes (fst (render_image env_icon render_ok two_scenes))) = 2"
    by (simp add: new_calls_icon)
  have "(0::nat) < 2" by simp
  with t have c0: "frame_end (new_calls two_scenes (fst (render_image env_icon render_ok two_scenes)) ! 0 ! 0) = 1 \<and>
      frame_end (scenes (fst (render_image env_icon render_ok two_scenes)) ! 0) = 1"
    unfolding len by blast
  have "(1::nat) < 2" by simp
  with t have c1: "frame_end (new_calls two_scenes (fst (render_image env_icon render_ok two_scenes)) ! 1 ! 1) = 1 \<and>
      frame_end (scenes (fst (render_image env_icon render_ok two_scenes)) ! 1) = 1"
    unfolding len by blast
  have f: "frame_end scene_a = 250" "frame_end scene_b = 24"
    by (simp_all add: scene_a_def scene_b_def)
  show ?thesis using len f c0 c1 by blast
qed

text \<open>
  Claim C8. A run changes nothing of a scene but \<open>resolution_x\<close>, \<open>resolution_y\<close>,
  \<open>filepath\<close> and \<open>frame_end\<close>: whatever the environment, the host's render operator and the
  way the run ends, the collection has as many scenes afterwards as before, in the same
  order, and each scene holds in every other field what it held before.
\<close>

theorem only_four_fields_change:
  "length (scenes (fst (render_image env rop h))) = length (scenes h) \<and>
   map others (scenes (fst (render_image env rop h))) = map others (scenes h)"
proof (cases "env ''XY''")
  case None
  then show ?thesis by (simp add: render_image_no_xy)
next
  case (Some xy)
  from render_image_shape [where env=env and h=h and rop=rop, OF Some] obtain k m where
    sh: "shape env xy [] (scenes h) (render_calls h)
           (fst (render_image env rop h)) (snd (render_image env rop h)) k m"
    by blast
  have sc: "scenes (fst (render_image env rop h)) = visited (touch env xy) m (scenes h)"
    using sh unfolding shape_def by simp
  have "map others (visited (touch env xy) m (scenes h)) =
      map others (take m (scenes h)) @ map others (drop m (scenes h))"
    by (simp add: visited_def others_touch)
  also have "\<dots> = map others (scenes h)"
    by (simp only: map_append [symmetric] append_take_drop_id)
  finally show ?thesis by (simp add: sc length_visited)
qed

theorem only_four_fields_change_witness:
  "length (scenes (fst (render_image env_icon render_ok two_scenes))) = 2 \<and>
   map others (scenes (fst (render_image env_icon render_ok two_scenes))) =
     [(50, ''Scene''), (100, ''Symbolic'')] \<and>
   scenes (fst (render_image env_icon render_ok two_scenes)) \<noteq> scenes two_scenes"
proof -
  note t = only_four_fields_change [where env=env_icon and h=two_scenes and rop=render_ok]
  have o: "map others (scenes two_scenes) = [(50, ''Scene''), (100, ''Symbolic'')]"
    by (simp add: two_scenes_def others_def scene_a_def scene_b_def)
  have l: "length (scenes two_scenes) = 2" by (simp add: two_scenes_def)
  have d: "scenes (fst (render_image env_icon render_ok two_scenes)) \<noteq> scenes two_scenes"
    unfolding run_icon by (simp add: two_scenes_def configured_def scene_a_def)
  from t d show ?thesis unfolding o l by blast
qed

text \<open>
  Claim C9. When the scene collection is empty and \<open>XY\<close> is set, to any string at all, a
  run ends without an exception and leaves the host as it was: no scene is touched and the
  render operator is not invoked. Neither \<open>int\<close> nor the lookup of \<open>APP_ID\<close> is reached, so
  it does not matter whether \<open>XY\<close> is numeric or whether \<open>APP_ID\<close> is set.
\<close>

theorem empty_collection_does_nothing:
  assumes "scenes h = []" and "env ''XY'' = Some xy"
  shows "render_image env rop h = (h, None)"
  using assms by (simp add: render_image_def)

theorem empty_collection_does_nothing_witness:
  "scenes no_scenes = [] \<and> env_junk ''XY'' = Some ''not a number'' \<and>
   env_junk ''APP_ID'' = None \<and> int_py ''not a number'' = Inl (ValueError ''not a number'') \<and>
   render_image env_junk render_fails no_scenes = (no_scenes, None)"
proof -
  have a: "scenes no_scenes = []" by (simp add: no_scenes_def)
  have b: "env_junk ''XY'' = Some ''not a number''" by (simp add: env_junk_def)
  have c: "env_junk ''APP_ID'' = None" by (simp add: env_junk_def)
  have d: "int_py ''not a number'' = Inl (ValueError ''not a number'')"
    by (simp add: int_py_eval)
  from empty_collection_does_nothing [where env=env_junk and rop=render_fails, OF a b] a b c d
  show ?thesis by blast
qed

text \<open>
  Claim C10. A run with \<open>XY\<close> set to a string that \<open>int\<close> parses as \<open>n\<close>, no \<open>APP_ID\<close> and a
  collection that is not empty ends with the \<open>KeyError\<close> of \<open>APP_ID\<close>, and not atomically: in
  the state it ends in, the first scene has \<open>resolution_x\<close> and \<open>resolution_y\<close> equal to \<open>n\<close>
  while its \<open>filepath\<close> and \<open>frame_end\<close> are what they were; the later scenes are untouched
  and the render operator was not invoked.
\<close>

theorem missing_app_id_not_atomic:
  assumes xy: "env ''XY'' = Some xy" and n: "int_py xy = Inr n"
    and app: "env ''APP_ID'' = None" and ss: "scenes h = s # ss"
  shows "render_image env rop h =
      (h\<lparr>scenes := s\<lparr>render := (render s)\<lparr>resolution_x := n, resolution_y := n\<rparr>\<rparr> # ss\<rparr>,
       Some (KeyError ''APP_ID'')) \<and>
    resolution_x (render (hd (scenes (fst (render_image env rop h))))) = n \<and>
    resolution_y (render (hd (scenes (fst (render_image env rop h))))) = n \<and>
    filepath (render (hd (scenes (fst (render_image env rop h))))) = filepath (render s) \<and>
    frame_end (hd (scenes (fst (render_image env rop h)))) = frame_end s \<and>
    tl (scenes (fst (render_image env rop h))) = ss \<and>
    render_calls (fst (render_image env rop h)) = render_calls h"
proof -
  have "render_image env rop h =
      (h\<lparr>scenes := s\<lparr>render := (render s)\<lparr>resolution_x := n, resolution_y := n\<rparr>\<rparr> # ss\<rparr>,
       Some (KeyError ''APP_ID''))"
    unfolding render_image_xy [where env=env, OF xy] ss
      for_scenes_Cons_raise [OF configure_no_app_id [where env=env, OF n app]]
    by simp
  then show ?thesis by simp
qed

theorem missing_app_id_not_atomic_witness:
  "env_no_app ''XY'' = Some ''48'' \<and> int_py ''48'' = Inr 48 \<and> env_no_app ''APP_ID'' = None \<and>
   scenes two_scenes = [scene_a, scene_b] \<and>
   snd (render_image env_no_app render_ok two_scenes) = Some (KeyError ''APP_ID'') \<and>
   resolution_x (render (hd (scenes (fst (render_image env_no_app render_ok two_scenes))))) = 48 \<and>
   resolution_y (render (hd (scenes (fst (render_image env_no_app render_ok two_scenes))))) = 48 \<and>
   filepath (render (hd (scenes (fst (render_image env_no_app render_ok two_scenes))))) = ''/tmp/'' \<and>
   frame_end (hd (scenes (fst (render_image env_no_app render_ok two_scenes)))) = 250 \<and>
   tl (scenes (fst (render_image env_no_app render_ok two_scenes))) = [scene_b] \<and>
   render_calls (fst (render_image env_no_app render_ok two_scenes)) = []"
proof -
  have a: "env_no_app ''XY'' = Some ''48''" by (simp add: env_no_app_def)
  have b: "env_no_app ''APP_ID'' = None" by (simp add: env_no_app_def)
  have c: "scenes two_scenes = [scene_a, scene_b]" by (simp add: two_scenes_def)
  note t = missing_app_id_not_atomic [where env=env_no_app and rop=render_ok, OF a int_py_48 b c]
  have d: "filepath (render scene_a) = ''/tmp/''" "frame_end scene_a = 250"
    "render_calls two_scenes = []"
    by (simp_all add: scene_a_def two_scenes_def)
  from t have e: "snd (render_image env_no_app render_ok two_scenes) = Some (KeyError ''APP_ID'')"
    by simp
  from t a int_py_48 b c e show ?thesis unfolding d by blast
qed

end
